theory Spec2Isabelle
  imports Complex_Main
begin

section \<open>GDTools: dice and dice pools (gdtools/dice.py)\<close>

text \<open>
  A shallow embedding of the module \<^verbatim>\<open>gdtools/dice.py\<close>: the range normaliser, the class
  \<^verbatim>\<open>Dice\<close> and the class \<^verbatim>\<open>DicePool\<close>. Python integers are \<open>int\<close>; the quotient of
  two integers (Python's true division) is kept exact as a \<open>rat\<close>; every exception a
  function can raise is a value of \<open>py_error\<close>, returned on the left of a sum.
\<close>

subsection \<open>Python values\<close>

datatype py_error =
  ValueError | TypeError | ZeroDivisionError | StopIteration
  | NotImplementedError | AttributeError

text \<open>
  A \<^verbatim>\<open>range(start, stop)\<close> object. The module only ever builds ranges of step 1, and
  \<^verbatim>\<open>normalize_rng\<close> reads nothing but \<^verbatim>\<open>start\<close> and \<^verbatim>\<open>stop\<close>.
\<close>

record pyrange =
  start :: int
  stop :: int

definition range_list :: "pyrange \<Rightarrow> int list" where
  \<comment> \<open>the values a range iterates over, in order\<close>
  "range_list r = [start r .. stop r - 1]"

definition range_eq :: "pyrange \<Rightarrow> pyrange \<Rightarrow> bool" where
  \<comment> \<open>\<^verbatim>\<open>==\<close> on ranges compares them as sequences: all empty ranges are equal\<close>
  "range_eq r1 r2 = (range_list r1 = range_list r2)"

record dice =
  rng :: pyrange
  avg :: rat
  min_d :: int
  max_d :: int
  sides :: int

record dicepool =
  rngs :: "pyrange list"
  mod_p :: int
  dist :: "(int \<times> nat) list"
  min_p :: int
  max_p :: int
  range_p :: pyrange

text \<open>The values that reach the constructors and operators of the module.\<close>

datatype pyval =
  IntV int | NoneV | StrV string | RangeV pyrange | DiceV dice | PoolV dicepool

text \<open>
  \<^verbatim>\<open>len(x)\<close>: defined on a list, a \<^verbatim>\<open>TypeError\<close> on a generator expression
  (\<^verbatim>\<open>object of type 'generator' has no len()\<close>).
\<close>

datatype 'a pyiter = PyList "'a list" | PyGenerator "'a list"

fun py_len :: "'a pyiter \<Rightarrow> py_error + nat" where
  "py_len (PyList xs) = Inr (length xs)"
| "py_len (PyGenerator xs) = Inl TypeError"

definition py_truediv :: "int \<Rightarrow> int \<Rightarrow> py_error + rat" where
  \<comment> \<open>\<^verbatim>\<open>a / b\<close> on integers\<close>
  "py_truediv a b = (if b = 0 then Inl ZeroDivisionError else Inr (of_int a / of_int b))"

definition randrange :: "int \<Rightarrow> int \<Rightarrow> py_error + int list" where
  \<comment> \<open>\<^verbatim>\<open>random.randrange(a, b)\<close>: the equally likely results of the draw, or
      \<^verbatim>\<open>ValueError\<close> on an empty range\<close>
  "randrange a b = (if b \<le> a then Inl ValueError else Inr [a .. b - 1])"

text \<open>
  \<^verbatim>\<open>==\<close> on the elements of a tuple holding ranges and integers. A range and an
  integer are never equal.
\<close>

fun pyval_eq :: "pyval \<Rightarrow> pyval \<Rightarrow> bool" where
  "pyval_eq (IntV a) (IntV b) = (a = b)"
| "pyval_eq (RangeV a) (RangeV b) = range_eq a b"
| "pyval_eq NoneV NoneV = True"
| "pyval_eq (StrV a) (StrV b) = (a = b)"
| "pyval_eq _ _ = False"

fun tuple_eq :: "pyval list \<Rightarrow> pyval list \<Rightarrow> bool" where
  "tuple_eq [] [] = True"
| "tuple_eq (x # xs) (y # ys) = (pyval_eq x y \<and> tuple_eq xs ys)"
| "tuple_eq _ _ = False"

subsection \<open>\<^verbatim>\<open>normalize_rng\<close>\<close>

definition normalize :: "pyrange \<Rightarrow> pyrange \<times> int" where
  \<comment> \<open>the body of \<^verbatim>\<open>normalize_rng\<close> once \<^verbatim>\<open>rng\<close> is bound\<close>
  "normalize r =
     (let mod' = start r - 1
      in (\<lparr>start = start r - mod', stop = stop r - mod'\<rparr>, mod'))"

fun normalize_rng :: "pyval \<Rightarrow> py_error + pyrange \<times> int" where
  "normalize_rng (DiceV d) = Inr (normalize (rng d))"
| "normalize_rng (RangeV r) = Inr (normalize r)"
| "normalize_rng _ = Inl AttributeError"

subsection \<open>\<^verbatim>\<open>Dice\<close>\<close>

definition Dice_fields :: "pyrange \<Rightarrow> py_error + dice" where
  \<comment> \<open>lines 53 to 56 of \<^verbatim>\<open>Dice.__init__\<close>, once \<^verbatim>\<open>self.rng\<close> is set\<close>
  "Dice_fields r =
     (case py_truediv (sum_list (range_list r)) (stop r - 1) of
        Inl e \<Rightarrow> Inl e
      | Inr a \<Rightarrow> Inr \<lparr>rng = r, avg = a, min_d = start r, max_d = stop r - 1,
                       sides = stop r - 1\<rparr>)"

fun Dice_init :: "pyval \<Rightarrow> pyval \<Rightarrow> py_error + dice" where
  "Dice_init (IntV p1) NoneV = Dice_fields \<lparr>start = 1, stop = p1 + 1\<rparr>"
| "Dice_init (IntV p1) (IntV p2) = Dice_fields \<lparr>start = p1, stop = p2 + 1\<rparr>"
| "Dice_init _ _ = Inl ValueError"

definition Dice_chances :: "dice \<Rightarrow> int \<Rightarrow> (int \<Rightarrow> int \<Rightarrow> bool) \<Rightarrow> py_error + rat" where
  "Dice_chances d threshold comparator =
     (let total_chances = stop (rng d) - start (rng d)
      in case py_len (PyGenerator
                (filter (\<lambda>result. comparator result threshold) (range_list (rng d)))) of
           Inl e \<Rightarrow> Inl e
         | Inr chances_to_pass \<Rightarrow> py_truediv (int chances_to_pass) total_chances)"

fun Dice_rgt :: "dice \<Rightarrow> pyval \<Rightarrow> py_error + rat" where
  "Dice_rgt d (IntV threshold) =
     (case py_len (PyList (filter (\<lambda>i. i > threshold) (range_list (rng d)))) of
        Inl e \<Rightarrow> Inl e
      | Inr n \<Rightarrow> py_truediv (int n) (max_d d))"
| "Dice_rgt d _ = Inl NotImplementedError"

fun Dice_rge :: "dice \<Rightarrow> pyval \<Rightarrow> py_error + rat" where
  "Dice_rge d (IntV threshold) = Dice_chances d threshold (\<lambda>a b. a \<ge> b)"
| "Dice_rge d _ = Inl NotImplementedError"

fun Dice_rlt :: "dice \<Rightarrow> pyval \<Rightarrow> py_error + rat" where
  "Dice_rlt d (IntV threshold) = Dice_chances d threshold (\<lambda>a b. a < b)"
| "Dice_rlt d _ = Inl NotImplementedError"

fun Dice_rle :: "dice \<Rightarrow> pyval \<Rightarrow> py_error + rat" where
  "Dice_rle d (IntV threshold) = Dice_chances d threshold (\<lambda>a b. a \<le> b)"
| "Dice_rle d _ = Inl NotImplementedError"

definition Dice_roll :: "dice \<Rightarrow> py_error + int list" where
  \<comment> \<open>the equally likely results of one roll\<close>
  "Dice_roll d = randrange (start (rng d)) (stop (rng d))"

subsection \<open>\<^verbatim>\<open>DicePool\<close>\<close>

text \<open>
  \<^verbatim>\<open>itertools.product(*iterables)\<close>: every tuple taking one value of each iterable, the
  rightmost position advancing first; a single empty tuple when there is no iterable.
\<close>

fun itertools_product :: "'a list list \<Rightarrow> 'a list list" where
  "itertools_product [] = [[]]"
| "itertools_product (xs # xss) =
     concat (map (\<lambda>x. map ((#) x) (itertools_product xss)) xs)"

text \<open>
  \<^verbatim>\<open>collections.Counter(iterable)\<close>: a dictionary in insertion order, from each element
  to the number of its occurrences. A key that is absent reads as 0.
\<close>

fun counter_incr :: "(int \<times> nat) list \<Rightarrow> int \<Rightarrow> (int \<times> nat) list" where
  "counter_incr [] k = [(k, 1)]"
| "counter_incr ((k', c) # kvs) k =
     (if k' = k then (k', c + 1) # kvs else (k', c) # counter_incr kvs k)"

definition Counter :: "int list \<Rightarrow> (int \<times> nat) list" where
  "Counter xs = foldl counter_incr [] xs"

definition counter_get :: "(int \<times> nat) list \<Rightarrow> int \<Rightarrow> nat" where
  "counter_get kvs k = (case map_of kvs k of None \<Rightarrow> 0 | Some c \<Rightarrow> c)"

text \<open>
  The loop of \<^verbatim>\<open>DicePool.__init__\<close> over its arguments, on the pair
  \<^verbatim>\<open>(rngs, self.mod)\<close>. An argument that is neither an integer, a \<^verbatim>\<open>Dice\<close> nor a range
  matches no branch and is skipped.
\<close>

fun init_loop :: "pyval list \<Rightarrow> pyrange list \<times> int \<Rightarrow> pyrange list \<times> int" where
  "init_loop [] (rs, m) = (rs, m)"
| "init_loop (IntV n # args) (rs, m) = init_loop args (rs, m + n)"
| "init_loop (DiceV d # args) (rs, m) =
     (let nrm = normalize (rng d) in init_loop args (rs @ [fst nrm], m + snd nrm))"
| "init_loop (RangeV r # args) (rs, m) =
     (let nrm = normalize r in init_loop args (rs @ [fst nrm], m + snd nrm))"
| "init_loop (_ # args) (rs, m) = init_loop args (rs, m)"

definition DicePool_fields :: "pyrange list \<Rightarrow> int \<Rightarrow> py_error + dicepool" where
  \<comment> \<open>lines 212 to 219: \<^verbatim>\<open>next(iter(self.dist))\<close> raises on an empty distribution\<close>
  "DicePool_fields rs m =
     (let d = Counter (map (\<lambda>result. sum_list result + m)
                          (itertools_product (map range_list rs)))
      in case d of
           [] \<Rightarrow> Inl StopIteration
         | _ # _ \<Rightarrow>
             Inr \<lparr>rngs = rs, mod_p = m, dist = d, min_p = fst (hd d), max_p = fst (last d),
                  range_p = \<lparr>start = fst (hd d), stop = fst (last d)\<rparr>\<rparr>)"

definition DicePool_init :: "pyval list \<Rightarrow> py_error + dicepool" where
  "DicePool_init args = (case init_loop args ([], 0) of (rs, m) \<Rightarrow> DicePool_fields rs m)"

text \<open>
  \<^verbatim>\<open>DicePool.__eq__\<close>; \<open>None\<close> is \<^verbatim>\<open>NotImplemented\<close>. Against a \<^verbatim>\<open>Dice\<close> the tuple of the
  pool's ranges is compared with \<^verbatim>\<open>tuple(rng)\<close>, the tuple of the integers of the die's
  normalised range. Two \<^verbatim>\<open>Counter\<close>s are equal when they hold the same counts.
\<close>

fun DicePool_eq :: "dicepool \<Rightarrow> pyval \<Rightarrow> bool option" where
  "DicePool_eq self (DiceV other) =
     (case normalize (rng other) of (r, m) \<Rightarrow>
        Some (tuple_eq (map RangeV (rngs self)) (map IntV (range_list r)) \<and> mod_p self = m))"
| "DicePool_eq self (PoolV other) =
     Some (list_all (\<lambda>k. counter_get (dist self) k = counter_get (dist other) k)
             (map fst (dist self @ dist other))
           \<and> mod_p self = mod_p other)"
| "DicePool_eq self _ = None"

text \<open>
  \<^verbatim>\<open>DicePool.__add__\<close> and \<^verbatim>\<open>DicePool.__sub__\<close>. Returning \<^verbatim>\<open>NotImplemented\<close> from
  \<^verbatim>\<open>__sub__\<close> ends in a \<^verbatim>\<open>TypeError\<close>, no operand of the module defining
  \<^verbatim>\<open>__rsub__\<close>; the last line of \<^verbatim>\<open>__add__\<close> reads \<^verbatim>\<open>other.rngs\<close>, an
  \<^verbatim>\<open>AttributeError\<close> on anything but a pool.
\<close>

fun DicePool_add :: "dicepool \<Rightarrow> pyval \<Rightarrow> py_error + dicepool" where
  "DicePool_add self (IntV other) =
     DicePool_init (map RangeV (rngs self) @ [IntV (mod_p self + other)])"
| "DicePool_add self (DiceV other) =
     DicePool_init (map RangeV (rngs self) @ [RangeV (rng other), IntV (mod_p self)])"
| "DicePool_add self (PoolV other) =
     DicePool_init (map RangeV (rngs self @ rngs other) @ [IntV (mod_p self + mod_p other)])"
| "DicePool_add self _ = Inl AttributeError"

fun range_in :: "pyrange \<Rightarrow> pyrange list \<Rightarrow> bool" where
  \<comment> \<open>\<^verbatim>\<open>rng in self.rngs\<close>\<close>
  "range_in r [] = False"
| "range_in r (x # xs) = (range_eq x r \<or> range_in r xs)"

fun range_remove :: "pyrange \<Rightarrow> pyrange list \<Rightarrow> pyrange list" where
  \<comment> \<open>\<^verbatim>\<open>rngs.remove(rng)\<close>, called only when \<^verbatim>\<open>rng in rngs\<close>: drops the first equal
      element\<close>
  "range_remove r [] = []"
| "range_remove r (x # xs) = (if range_eq x r then xs else x # range_remove r xs)"

fun DicePool_sub :: "dicepool \<Rightarrow> pyval \<Rightarrow> py_error + dicepool" where
  "DicePool_sub self (IntV other) =
     DicePool_init (map RangeV (rngs self) @ [IntV (mod_p self - other)])"
| "DicePool_sub self (DiceV other) =
     (case normalize (rng other) of (r, m) \<Rightarrow>
        if range_in r (rngs self)
        then DicePool_init (map RangeV (range_remove r (rngs self)) @ [IntV (mod_p self - m)])
        else Inl ValueError)"
| "DicePool_sub self _ = Inl TypeError"

text \<open>
  \<^verbatim>\<open>DicePool.roll\<close>: the results of the roll, one for each equally likely value of
  \<^verbatim>\<open>random.randrange(len(product) - 1)\<close>.
\<close>

definition DicePool_roll :: "dicepool \<Rightarrow> py_error + int list" where
  "DicePool_roll self =
     (let product = itertools_product (map range_list (rngs self))
      in case randrange 0 (int (length product) - 1) of
           Inl e \<Rightarrow> Inl e
         | Inr draws \<Rightarrow> Inr (map (\<lambda>i. sum_list (product ! nat i)) draws))"

section \<open>Properties\<close>

subsection \<open>Auxiliary facts\<close>

lemma Dice_chances_TypeError: "Dice_chances d threshold comparator = Inl TypeError"
  by (simp add: Dice_chances_def)

lemma tuple_eq_ranges_ints:
  "tuple_eq (map RangeV rs) (map IntV xs) \<longleftrightarrow> rs = [] \<and> xs = []"
  by (cases rs; cases xs) simp_all

lemma DicePool_eq_Dice_True:
  "DicePool_eq self (DiceV other) = Some True \<Longrightarrow> rngs self = []"
  by (auto simp: tuple_eq_ranges_ints split: prod.splits)

lemma init_loop_skips_pool: "init_loop (PoolV q # args) s = init_loop args s"
  by (cases s) simp

subsection \<open>Counters and products\<close>

lemma counter_get_incr:
  "counter_get (counter_incr kvs k) k' = counter_get kvs k' + (if k' = k then 1 else 0)"
  by (induction kvs) (auto simp: counter_get_def)

lemma keys_counter_incr:
  "set (map fst (counter_incr kvs k)) = insert k (set (map fst kvs))"
proof (induction kvs)
  case Nil
  then show ?case by simp
next
  case (Cons kv kvs)
  obtain k' c where kv: "kv = (k', c)" by (cases kv)
  show ?case
  proof (cases "k' = k")
    case True
    then show ?thesis by (auto simp: kv)
  next
    case False
    then have "set (map fst (counter_incr (kv # kvs) k))
                 = insert k' (set (map fst (counter_incr kvs k)))"
      by (simp add: kv)
    also have "\<dots> = insert k' (insert k (set (map fst kvs)))"
      by (simp only: Cons.IH)
    finally show ?thesis by (auto simp: kv)
  qed
qed

lemma distinct_counter_incr:
  "distinct (map fst kvs) \<Longrightarrow> distinct (map fst (counter_incr kvs k))"
proof (induction kvs)
  case Nil
  then show ?case by simp
next
  case (Cons kv kvs)
  obtain k' c where kv: "kv = (k', c)" by (cases kv)
  from Cons show ?case
    using keys_counter_incr [of kvs k] by (auto simp: kv)
qed

lemma positive_counter_incr:
  "\<forall>kv \<in> set kvs. 0 < snd kv \<Longrightarrow> \<forall>kv \<in> set (counter_incr kvs k). 0 < snd kv"
proof (induction kvs)
  case Nil
  then show ?case by simp
next
  case (Cons kv kvs)
  obtain k' c where kv: "kv = (k', c)" by (cases kv)
  from Cons.prems have tl: "\<forall>kv \<in> set kvs. 0 < snd kv" by simp
  from Cons.IH [OF tl] tl Cons.prems show ?case by (simp add: kv)
qed

lemma mass_counter_incr:
  "sum_list (map snd (counter_incr kvs k)) = sum_list (map snd kvs) + 1"
  by (induction kvs) auto

lemma counter_get_foldl:
  "counter_get (foldl counter_incr kvs xs) k = counter_get kvs k + count_list xs k"
  by (induction xs arbitrary: kvs) (auto simp: counter_get_incr)

lemma distinct_foldl:
  "distinct (map fst kvs) \<Longrightarrow> distinct (map fst (foldl counter_incr kvs xs))"
  by (induction xs arbitrary: kvs) (auto simp: distinct_counter_incr)

lemma positive_foldl:
  "\<forall>kv \<in> set kvs. 0 < snd kv \<Longrightarrow> \<forall>kv \<in> set (foldl counter_incr kvs xs). 0 < snd kv"
proof (induction xs arbitrary: kvs)
  case Nil
  then show ?case by simp
next
  case (Cons x xs)
  have "\<forall>kv \<in> set (counter_incr kvs x). 0 < snd kv"
    using Cons.prems by (rule positive_counter_incr)
  then have "\<forall>kv \<in> set (foldl counter_incr (counter_incr kvs x) xs). 0 < snd kv"
    by (rule Cons.IH)
  then show ?case by simp
qed

lemma mass_foldl:
  "sum_list (map snd (foldl counter_incr kvs xs)) = sum_list (map snd kvs) + length xs"
  by (induction xs arbitrary: kvs) (auto simp: mass_counter_incr)

lemma counter_get_Counter: "counter_get (Counter xs) k = count_list xs k"
proof -
  have "counter_get [] k = 0" by (simp add: counter_get_def)
  then show ?thesis by (simp add: Counter_def counter_get_foldl)
qed

lemma distinct_Counter: "distinct (map fst (Counter xs))"
  by (simp add: Counter_def distinct_foldl)

lemma positive_Counter: "\<forall>kv \<in> set (Counter xs). 0 < snd kv"
  unfolding Counter_def by (rule positive_foldl) simp

lemma mass_Counter: "sum_list (map snd (Counter xs)) = length xs"
  by (simp add: Counter_def mass_foldl)

lemma Counter_Nil_iff: "Counter xs = [] \<longleftrightarrow> xs = []"
proof
  assume "Counter xs = []"
  then have "length xs = 0" using mass_Counter [of xs] by simp
  then show "xs = []" by simp
qed (simp add: Counter_def)

lemma itertools_product_eq: "itertools_product xss = product_lists xss"
  by (induction xss) auto

lemma length_itertools_product:
  "length (itertools_product xss) = prod_list (map length xss)"
  by (induction xss) (auto simp: length_concat comp_def sum_list_triv)

lemma distinct_range_list: "distinct (range_list r)"
  by (simp add: range_list_def)

lemma length_range_list: "length (range_list r) = nat (stop r - start r)"
  by (simp add: range_list_def)

lemma set_range_list: "set (range_list r) = {x. start r \<le> x \<and> x < stop r}"
  by (auto simp: range_list_def)

lemma distinct_itertools_product:
  "distinct (itertools_product (map range_list rs))"
  unfolding itertools_product_eq
  by (rule distinct_product_lists) (auto simp: distinct_range_list)

lemma set_itertools_product:
  "set (itertools_product (map range_list rs))
     = {tup. list_all2 (\<lambda>x r. start r \<le> x \<and> x < stop r) tup rs}"
  unfolding itertools_product_eq product_lists_set
  by (auto simp: list_all2_map2 set_range_list)

lemma count_list_map_card:
  assumes "distinct xs"
  shows "count_list (map f xs) t = card {x \<in> set xs. f x = t}"
proof -
  have "count_list (map f xs) t = length (filter (\<lambda>x. f x = t) xs)"
    by (induction xs) auto
  also have "\<dots> = card ({x. f x = t} \<inter> set xs)"
    using assms by (rule distinct_length_filter)
  also have "{x. f x = t} \<inter> set xs = {x \<in> set xs. f x = t}" by auto
  finally show ?thesis .
qed

subsection \<open>The constructor of a pool\<close>

lemma DicePool_fields_Inr:
  assumes "DicePool_fields rs m = Inr p"
  shows "rngs p = rs" and "mod_p p = m"
    and "dist p = Counter (map (\<lambda>result. sum_list result + m)
                              (itertools_product (map range_list rs)))"
  using assms by (auto simp: DicePool_fields_def Let_def split: list.splits)

lemma DicePool_fields_error:
  "DicePool_fields rs m = Inl e \<Longrightarrow> e = StopIteration"
  by (auto simp: DicePool_fields_def Let_def split: list.splits)

lemma itertools_product_Nil_iff:
  "itertools_product (map range_list rs) = [] \<longleftrightarrow> (\<exists>r \<in> set rs. stop r \<le> start r)"
proof -
  have "itertools_product (map range_list rs) = []
          \<longleftrightarrow> prod_list (map length (map range_list rs)) = 0"
    using length_itertools_product [of "map range_list rs"] by (metis length_0_conv)
  also have "\<dots> \<longleftrightarrow> (\<exists>r \<in> set rs. length (range_list r) = 0)"
    by (auto simp: prod_list_zero_iff)
  also have "\<dots> \<longleftrightarrow> (\<exists>r \<in> set rs. stop r \<le> start r)"
    by (simp add: length_range_list)
  finally show ?thesis .
qed

lemma DicePool_fields_returns_iff:
  "(\<exists>p. DicePool_fields rs m = Inr p) \<longleftrightarrow> (\<forall>r \<in> set rs. start r < stop r)"
proof -
  let ?xs = "map (\<lambda>result. sum_list result + m) (itertools_product (map range_list rs))"
  have "(\<exists>p. DicePool_fields rs m = Inr p) \<longleftrightarrow> Counter ?xs \<noteq> []"
    by (auto simp: DicePool_fields_def Let_def split: list.splits)
  also have "\<dots> \<longleftrightarrow> itertools_product (map range_list rs) \<noteq> []"
    by (simp add: Counter_Nil_iff)
  also have "\<dots> \<longleftrightarrow> (\<forall>r \<in> set rs. start r < stop r)"
    by (auto simp: itertools_product_Nil_iff)
  finally show ?thesis .
qed

lemma DicePool_init_fields:
  assumes "DicePool_init args = Inr p"
  shows "init_loop args ([], 0) = (rngs p, mod_p p)"
    and "DicePool_fields (rngs p) (mod_p p) = Inr p"
proof -
  obtain rs m where loop: "init_loop args ([], 0) = (rs, m)"
    by (cases "init_loop args ([], 0)")
  with assms have f: "DicePool_fields rs m = Inr p" by (simp add: DicePool_init_def)
  then have "rngs p = rs" "mod_p p = m" by (rule DicePool_fields_Inr)+
  with loop f show "init_loop args ([], 0) = (rngs p, mod_p p)"
    and "DicePool_fields (rngs p) (mod_p p) = Inr p" by simp_all
qed

lemma init_loop_append:
  "init_loop (xs @ ys) s = init_loop ys (init_loop xs s)"
proof (induction xs s rule: init_loop.induct)
qed (simp_all add: Let_def)

lemma init_loop_ranges:
  "init_loop (map RangeV xs) (rs, m)
     = (rs @ map (\<lambda>r. fst (normalize r)) xs, m + sum_list (map (\<lambda>r. snd (normalize r)) xs))"
  by (induction xs arbitrary: rs m) (simp_all add: Let_def)

lemma init_loop_dice:
  "init_loop (map DiceV ds) (rs, m)
     = (rs @ map (\<lambda>d. fst (normalize (rng d))) ds,
        m + sum_list (map (\<lambda>d. snd (normalize (rng d))) ds))"
  by (induction ds arbitrary: rs m) (simp_all add: Let_def)

lemma normalize_canonical: "start r = 1 \<Longrightarrow> normalize r = (r, 0)"
  by (simp add: normalize_def)

lemma start_normalize: "start (fst (normalize r)) = 1"
  by (simp add: normalize_def Let_def)

lemma init_loop_canonical:
  "\<forall>r \<in> set rs. start r = 1 \<Longrightarrow> \<forall>r \<in> set (fst (init_loop args (rs, m))). start r = 1"
proof (induction args "(rs, m)" arbitrary: rs m rule: init_loop.induct)
qed (simp_all add: Let_def start_normalize)

lemma DicePool_init_canonical:
  assumes "DicePool_init args = Inr p"
  shows "\<forall>r \<in> set (rngs p). start r = 1"
proof -
  have "\<forall>r \<in> set (fst (init_loop args ([], 0))). start r = 1"
    by (rule init_loop_canonical) simp
  then show ?thesis using DicePool_init_fields(1) [OF assms] by simp
qed

lemma DicePool_init_nonempty:
  assumes "DicePool_init args = Inr p"
  shows "\<forall>r \<in> set (rngs p). start r < stop r"
  using DicePool_init_fields(2) [OF assms] DicePool_fields_returns_iff [of "rngs p" "mod_p p"]
  by blast

lemma init_loop_canonical_ranges:
  assumes "\<forall>r \<in> set xs. start r = 1"
  shows "init_loop (map RangeV xs @ [IntV k]) ([], 0) = (xs, k)"
proof -
  have "map (\<lambda>r. fst (normalize r)) xs = xs"
    using assms by (induction xs) (simp_all add: normalize_canonical)
  moreover have "sum_list (map (\<lambda>r. snd (normalize r)) xs) = 0"
    using assms by (induction xs) (simp_all add: normalize_canonical)
  ultimately show ?thesis
    by (simp add: init_loop_append init_loop_ranges)
qed

lemma DicePool_init_canonical_ranges:
  assumes "\<forall>r \<in> set xs. start r = 1"
  shows "DicePool_init (map RangeV xs @ [IntV k]) = DicePool_fields xs k"
  by (simp add: DicePool_init_def init_loop_canonical_ranges [OF assms])

lemma range_in_iff: "range_in r rs \<longleftrightarrow> (\<exists>x \<in> set rs. range_eq x r)"
  by (induction rs) auto

lemma range_remove_subset: "set (range_remove r rs) \<subseteq> set rs"
  by (induction rs) auto

lemma length_range_remove:
  "range_in r rs \<Longrightarrow> length (range_remove r rs) + 1 = length rs"
  by (induction rs) auto

lemma range_remove_last:
  "\<not> range_in r rs \<Longrightarrow> range_eq r r \<Longrightarrow> range_remove r (rs @ [r]) = rs"
  by (induction rs) auto

lemma range_eq_refl: "range_eq r r"
  by (simp add: range_eq_def)

lemma Dice_init_face_count:
  assumes "Dice_init (IntV n) NoneV = Inr d"
  shows "normalize (rng d) = (\<lparr>start = 1, stop = n + 1\<rparr>, 0)"
  using assms
  by (auto simp: Dice_fields_def py_truediv_def normalize_def split: if_splits)

lemma prod_list_nat:
  "\<forall>n \<in> set ns. 0 < n \<Longrightarrow> int (prod_list (map nat ns)) = prod_list ns"
  by (induction ns) simp_all

lemma dice_pool_mass:
  assumes pool: "DicePool_init (map DiceV ds) = Inr p"
    and dice: "list_all2 (\<lambda>n d. Dice_init (IntV n) NoneV = Inr d) ns ds"
  shows "int (prod_list (map (\<lambda>r. nat (stop r - start r)) (rngs p))) = prod_list ns"
proof -
  have "map (\<lambda>d. fst (normalize (rng d))) ds = map (\<lambda>n. \<lparr>start = 1, stop = n + 1\<rparr>) ns"
    using dice by (induction ns ds rule: list_all2_induct) (simp_all add: Dice_init_face_count)
  then have rs: "rngs p = map (\<lambda>n. \<lparr>start = 1, stop = n + 1\<rparr>) ns"
    using DicePool_init_fields(1) [OF pool] by (simp add: init_loop_dice)
  have "\<forall>n \<in> set ns. 0 < n"
    using DicePool_init_nonempty [OF pool] by (simp add: rs)
  then have "int (prod_list (map nat ns)) = prod_list ns" by (rule prod_list_nat)
  then show ?thesis by (simp add: rs comp_def)
qed

lemma init_loop_canonical_prefix:
  assumes "\<forall>r \<in> set xs. start r = 1"
  shows "init_loop (map RangeV xs @ ys) ([], 0) = init_loop ys (xs, 0)"
proof -
  have "map (\<lambda>r. fst (normalize r)) xs = xs"
    using assms by (induction xs) (simp_all add: normalize_canonical)
  moreover have "sum_list (map (\<lambda>r. snd (normalize r)) xs) = 0"
    using assms by (induction xs) (simp_all add: normalize_canonical)
  ultimately show ?thesis
    by (simp add: init_loop_append init_loop_ranges)
qed

lemma DicePool_add_Dice:
  assumes "DicePool_init args = Inr Q"
  shows "DicePool_add Q (DiceV d)
           = DicePool_fields (rngs Q @ [fst (normalize (rng d))])
               (snd (normalize (rng d)) + mod_p Q)"
  using init_loop_canonical_prefix [OF DicePool_init_canonical [OF assms]]
  by (simp add: DicePool_init_def Let_def)

lemma DicePool_sub_Dice:
  assumes "DicePool_init args = Inr P"
  shows "DicePool_sub P (DiceV d)
           = (if range_in (fst (normalize (rng d))) (rngs P)
              then DicePool_fields (range_remove (fst (normalize (rng d))) (rngs P))
                     (mod_p P - snd (normalize (rng d)))
              else Inl ValueError)"
proof -
  have "\<forall>r \<in> set (range_remove (fst (normalize (rng d))) (rngs P)). start r = 1"
    using DicePool_init_canonical [OF assms] range_remove_subset by blast
  then show ?thesis
    by (simp add: DicePool_init_canonical_ranges split: prod.splits)
qed

text \<open>The pools used as examples below, evaluated.\<close>

lemma eval_pool_d6_d6:
  "DicePool_init [DiceV \<lparr>rng = \<lparr>start = 1, stop = 7\<rparr>, avg = 7 / 2, min_d = 1, max_d = 6, sides = 6\<rparr>,
                  DiceV \<lparr>rng = \<lparr>start = 1, stop = 7\<rparr>, avg = 7 / 2, min_d = 1, max_d = 6, sides = 6\<rparr>]
     = Inr \<lparr>rngs = [\<lparr>start = 1, stop = 7\<rparr>, \<lparr>start = 1, stop = 7\<rparr>], mod_p = 0,
           dist = [(2, 1), (3, 2), (4, 3), (5, 4), (6, 5), (7, 6), (8, 5), (9, 4),
                   (10, 3), (11, 2), (12, 1)],
           min_p = 2, max_p = 12, range_p = \<lparr>start = 2, stop = 12\<rparr>\<rparr>"
  by (simp add: DicePool_init_def DicePool_fields_def normalize_def Counter_def range_list_def upto_rec1 Dice_fields_def py_truediv_def range_eq_def)

lemma eval_pool_3:
  "DicePool_init [IntV 3]
     = Inr \<lparr>rngs = [], mod_p = 3, dist = [(3, 1)], min_p = 3, max_p = 3,
           range_p = \<lparr>start = 3, stop = 3\<rparr>\<rparr>"
  by (simp add: DicePool_init_def DicePool_fields_def normalize_def Counter_def range_list_def upto_rec1 Dice_fields_def py_truediv_def range_eq_def)

lemma eval_pool_4:
  "DicePool_init [IntV 4]
     = Inr \<lparr>rngs = [], mod_p = 4, dist = [(4, 1)], min_p = 4, max_p = 4,
           range_p = \<lparr>start = 4, stop = 4\<rparr>\<rparr>"
  by (simp add: DicePool_init_def DicePool_fields_def normalize_def Counter_def range_list_def upto_rec1 Dice_fields_def py_truediv_def range_eq_def)

subsection \<open>Range normalisation\<close>

text \<open>
  Claim C9. For every integer range \<open>[a, b)\<close> with \<open>b > a\<close>, \<^verbatim>\<open>normalize_rng\<close> returns the
  canonical range \<open>[1, b - a + 1)\<close> and the modifier \<open>a - 1\<close>; the values of the canonical
  range, each shifted by the modifier, are the values of the original range; and
  normalising the canonical range again returns it unchanged, with modifier 0.
\<close>

theorem normalize_rng_canonical:
  assumes "start r < stop r"
  shows "normalize_rng (RangeV r)
           = Inr (\<lparr>start = 1, stop = stop r - start r + 1\<rparr>, start r - 1)
       \<and> (\<lambda>x. x + (start r - 1)) ` set (range_list \<lparr>start = 1, stop = stop r - start r + 1\<rparr>)
           = set (range_list r)
       \<and> normalize_rng (RangeV \<lparr>start = 1, stop = stop r - start r + 1\<rparr>)
           = Inr (\<lparr>start = 1, stop = stop r - start r + 1\<rparr>, 0)"
proof (intro conjI)
  show "normalize_rng (RangeV r)
           = Inr (\<lparr>start = 1, stop = stop r - start r + 1\<rparr>, start r - 1)"
    by (simp add: normalize_def Let_def)
  show "(\<lambda>x. x + (start r - 1)) ` set (range_list \<lparr>start = 1, stop = stop r - start r + 1\<rparr>)
           = set (range_list r)"
    by (simp add: range_list_def)
  show "normalize_rng (RangeV \<lparr>start = 1, stop = stop r - start r + 1\<rparr>)
           = Inr (\<lparr>start = 1, stop = stop r - start r + 1\<rparr>, 0)"
    by (simp add: normalize_def Let_def)
qed

theorem normalize_rng_canonical_witness:
  "start \<lparr>start = 4, stop = 10\<rparr> < stop \<lparr>start = 4, stop = 10\<rparr>
   \<and> normalize_rng (RangeV \<lparr>start = 4, stop = 10\<rparr>) = Inr (\<lparr>start = 1, stop = 7\<rparr>, 3)
   \<and> normalize_rng (RangeV \<lparr>start = 1, stop = 7\<rparr>) = Inr (\<lparr>start = 1, stop = 7\<rparr>, 0)"
  using normalize_rng_canonical [of "\<lparr>start = 4, stop = 10\<rparr>"] by simp

subsection \<open>Dice\<close>

text \<open>
  Claim C3. \<^verbatim>\<open>Dice(6)\<close> has \<open>min = 1\<close>, \<open>max = 6\<close>, \<open>sides = 6\<close> and average \<open>3.5\<close>, and
  \<^verbatim>\<open>Dice(4, 12)\<close> has \<open>min = 4\<close> and \<open>max = 12\<close>. Its average, though, is computed as the sum
  of the faces divided by \<^verbatim>\<open>rng.stop - 1\<close>, the largest face, not by the number of faces:
  \<open>72 / 12 = 6\<close>, where the mean of the nine faces \<open>4..12\<close> is \<open>72 / 9 = 8\<close>.
\<close>

theorem Dice_avg_divides_by_max:
  "Dice_init (IntV 6) NoneV
     = Inr \<lparr>rng = \<lparr>start = 1, stop = 7\<rparr>, avg = 7 / 2, min_d = 1, max_d = 6, sides = 6\<rparr>
   \<and> Dice_init (IntV 4) (IntV 12)
     = Inr \<lparr>rng = \<lparr>start = 4, stop = 13\<rparr>, avg = 6, min_d = 4, max_d = 12, sides = 12\<rparr>
   \<and> of_int (sum_list (range_list \<lparr>start = 4, stop = 13\<rparr>))
       / of_int (int (length (range_list \<lparr>start = 4, stop = 13\<rparr>))) = (8 :: rat)"
  by (simp add: Dice_fields_def py_truediv_def range_list_def upto_rec1)

text \<open>
  Claim C10. Construction of a \<^verbatim>\<open>Dice\<close> is not total over the integers: the division by
  \<^verbatim>\<open>rng.stop - 1\<close> raises \<^verbatim>\<open>ZeroDivisionError\<close> whenever the largest face is 0, as for
  \<^verbatim>\<open>Dice(-3, 0)\<close>, a die with the four faces \<open>-3, -2, -1, 0\<close>, and for \<^verbatim>\<open>Dice(0)\<close>.
\<close>

theorem Dice_init_zero_max_raises:
  "Dice_init (IntV (- 3)) (IntV 0) = Inl ZeroDivisionError
   \<and> range_list \<lparr>start = - 3, stop = 0 + 1\<rparr> = [- 3, - 2, - 1, 0]
   \<and> Dice_init (IntV 0) NoneV = Inl ZeroDivisionError"
  by (simp add: Dice_fields_def py_truediv_def range_list_def upto_rec1)

text \<open>
  Claim C2. Of the four threshold queries of a \<^verbatim>\<open>Dice\<close> only \<^verbatim>\<open>rgt\<close> returns: \<^verbatim>\<open>rge\<close>,
  \<^verbatim>\<open>rlt\<close> and \<^verbatim>\<open>rle\<close> go through \<^verbatim>\<open>_chances\<close>, which takes \<^verbatim>\<open>len\<close> of a generator
  expression and so raises \<^verbatim>\<open>TypeError\<close> on every die and threshold. On \<^verbatim>\<open>Dice(6)\<close> and
  threshold 3, \<^verbatim>\<open>rgt\<close> returns \<open>1/2\<close> and the other three raise.
\<close>

theorem Dice_threshold_queries_raise:
  "Dice_init (IntV 6) NoneV
     = Inr \<lparr>rng = \<lparr>start = 1, stop = 7\<rparr>, avg = 7 / 2, min_d = 1, max_d = 6, sides = 6\<rparr>
   \<and> Dice_rge \<lparr>rng = \<lparr>start = 1, stop = 7\<rparr>, avg = 7 / 2, min_d = 1, max_d = 6, sides = 6\<rparr>
        (IntV 3) = Inl TypeError
   \<and> Dice_rlt \<lparr>rng = \<lparr>start = 1, stop = 7\<rparr>, avg = 7 / 2, min_d = 1, max_d = 6, sides = 6\<rparr>
        (IntV 3) = Inl TypeError
   \<and> Dice_rle \<lparr>rng = \<lparr>start = 1, stop = 7\<rparr>, avg = 7 / 2, min_d = 1, max_d = 6, sides = 6\<rparr>
        (IntV 3) = Inl TypeError
   \<and> Dice_rgt \<lparr>rng = \<lparr>start = 1, stop = 7\<rparr>, avg = 7 / 2, min_d = 1, max_d = 6, sides = 6\<rparr>
        (IntV 3) = Inr (1 / 2)"
  by (simp add: Dice_chances_def Dice_fields_def py_truediv_def range_list_def upto_rec1)

subsection \<open>Dice pools: evaluation on the inputs of the specification\<close>

text \<open>
  Claim C4. \<^verbatim>\<open>DicePool(Dice(6), 3)\<close> has the totals \<open>4..9\<close>, but its \<^verbatim>\<open>roll()\<close> returns
  one of \<open>1, 2, 3, 4, 5\<close>: the sum of the drawn tuple without the modifier 3, the index
  being drawn below \<^verbatim>\<open>len(product) - 1\<close>, so that the last tuple, \<open>(6)\<close>, is never drawn.
  \<^verbatim>\<open>Dice(6).roll()\<close> does return one of \<open>1..6\<close>.
\<close>

theorem DicePool_roll_drops_modifier:
  "DicePool_init [DiceV \<lparr>rng = \<lparr>start = 1, stop = 7\<rparr>, avg = 7 / 2, min_d = 1, max_d = 6,
                         sides = 6\<rparr>, IntV 3]
     = Inr \<lparr>rngs = [\<lparr>start = 1, stop = 7\<rparr>], mod_p = 3,
            dist = [(4, 1), (5, 1), (6, 1), (7, 1), (8, 1), (9, 1)],
            min_p = 4, max_p = 9, range_p = \<lparr>start = 4, stop = 9\<rparr>\<rparr>
   \<and> DicePool_roll \<lparr>rngs = [\<lparr>start = 1, stop = 7\<rparr>], mod_p = 3,
            dist = [(4, 1), (5, 1), (6, 1), (7, 1), (8, 1), (9, 1)],
            min_p = 4, max_p = 9, range_p = \<lparr>start = 4, stop = 9\<rparr>\<rparr>
     = Inr [1, 2, 3, 4, 5]
   \<and> Dice_roll \<lparr>rng = \<lparr>start = 1, stop = 7\<rparr>, avg = 7 / 2, min_d = 1, max_d = 6, sides = 6\<rparr>
     = Inr [1, 2, 3, 4, 5, 6]"
  by (simp add: DicePool_init_def DicePool_fields_def DicePool_roll_def Dice_roll_def
      normalize_def Counter_def randrange_def range_list_def upto_rec1)

text \<open>
  Claim C5. \<^verbatim>\<open>DicePool(range(1, 7)) == Dice(6)\<close> evaluates to \<^verbatim>\<open>False\<close>: \<^verbatim>\<open>__eq__\<close>
  compares the pool's tuple of ranges, \<^verbatim>\<open>(range(1, 7),)\<close>, with \<^verbatim>\<open>tuple(rng)\<close>, the tuple
  \<^verbatim>\<open>(1, 2, 3, 4, 5, 6)\<close> of the die's faces. \<^verbatim>\<open>DicePool(Dice(6), Dice(6)) == Dice(6)\<close> is
  \<^verbatim>\<open>False\<close> as well; no pool that holds a range equals a die.
\<close>

theorem DicePool_eq_Dice_compares_faces:
  "DicePool_init [RangeV \<lparr>start = 1, stop = 7\<rparr>]
     = Inr \<lparr>rngs = [\<lparr>start = 1, stop = 7\<rparr>], mod_p = 0,
            dist = [(1, 1), (2, 1), (3, 1), (4, 1), (5, 1), (6, 1)],
            min_p = 1, max_p = 6, range_p = \<lparr>start = 1, stop = 6\<rparr>\<rparr>
   \<and> DicePool_eq \<lparr>rngs = [\<lparr>start = 1, stop = 7\<rparr>], mod_p = 0,
            dist = [(1, 1), (2, 1), (3, 1), (4, 1), (5, 1), (6, 1)],
            min_p = 1, max_p = 6, range_p = \<lparr>start = 1, stop = 6\<rparr>\<rparr>
        (DiceV \<lparr>rng = \<lparr>start = 1, stop = 7\<rparr>, avg = 7 / 2, min_d = 1, max_d = 6, sides = 6\<rparr>)
     = Some False
   \<and> DicePool_eq \<lparr>rngs = [\<lparr>start = 1, stop = 7\<rparr>, \<lparr>start = 1, stop = 7\<rparr>], mod_p = 0,
            dist = [(2, 1), (3, 2), (4, 3), (5, 4), (6, 5), (7, 6), (8, 5), (9, 4),
                    (10, 3), (11, 2), (12, 1)],
            min_p = 2, max_p = 12, range_p = \<lparr>start = 2, stop = 12\<rparr>\<rparr>
        (DiceV \<lparr>rng = \<lparr>start = 1, stop = 7\<rparr>, avg = 7 / 2, min_d = 1, max_d = 6, sides = 6\<rparr>)
     = Some False"
  by (simp add: DicePool_init_def DicePool_fields_def normalize_def
      Counter_def range_list_def upto_rec1)

text \<open>
  Claim C6. A \<^verbatim>\<open>DicePool\<close> passed to the constructor matches neither branch of its loop and
  is skipped: \<^verbatim>\<open>DicePool(DicePool(Dice(6), 3))\<close> has no range and modifier 0.
\<close>

theorem DicePool_init_ignores_pool:
  "DicePool_init [PoolV \<lparr>rngs = [\<lparr>start = 1, stop = 7\<rparr>], mod_p = 3,
            dist = [(4, 1), (5, 1), (6, 1), (7, 1), (8, 1), (9, 1)],
            min_p = 4, max_p = 9, range_p = \<lparr>start = 4, stop = 9\<rparr>\<rparr>]
     = Inr \<lparr>rngs = [], mod_p = 0, dist = [(0, 1)], min_p = 0, max_p = 0,
            range_p = \<lparr>start = 0, stop = 0\<rparr>\<rparr>"
  by (simp add: DicePool_init_def DicePool_fields_def Counter_def)

subsection \<open>Dice pools: the distribution\<close>

text \<open>
  Claim C1. For every pool the constructor returns, the distribution maps each total \<open>t\<close>
  to the number of tuples holding one value of each component range, in order, whose sum
  plus the modifier is \<open>t\<close>; its keys are distinct and every stored count is positive. The
  counts add up to the product of the sizes of the ranges, which for a pool built from
  the dice \<^verbatim>\<open>Dice(n1), ..., Dice(nk)\<close> is \<open>n1 * ... * nk\<close>. A pool without ranges has the
  distribution \<open>{modifier: 1}\<close>.
\<close>

theorem DicePool_dist_counts_tuples:
  assumes "DicePool_init args = Inr p"
  shows "(\<forall>t. counter_get (dist p) t
              = card {tup. list_all2 (\<lambda>x r. start r \<le> x \<and> x < stop r) tup (rngs p)
                           \<and> sum_list tup + mod_p p = t})
       \<and> distinct (map fst (dist p))
       \<and> (\<forall>kv \<in> set (dist p). 0 < snd kv)
       \<and> sum_list (map snd (dist p)) = prod_list (map (\<lambda>r. nat (stop r - start r)) (rngs p))
       \<and> (\<forall>ns ds. args = map DiceV ds
                  \<and> list_all2 (\<lambda>n d. Dice_init (IntV n) NoneV = Inr d) ns ds
              \<longrightarrow> int (sum_list (map snd (dist p))) = prod_list ns)
       \<and> (rngs p = [] \<longrightarrow> dist p = [(mod_p p, 1)])"
proof -
  let ?prod = "itertools_product (map range_list (rngs p))"
  have f: "DicePool_fields (rngs p) (mod_p p) = Inr p"
    using assms by (rule DicePool_init_fields)
  have d: "dist p = Counter (map (\<lambda>result. sum_list result + mod_p p) ?prod)"
    using f by (rule DicePool_fields_Inr)
  have count: "counter_get (dist p) t
              = card {tup. list_all2 (\<lambda>x r. start r \<le> x \<and> x < stop r) tup (rngs p)
                           \<and> sum_list tup + mod_p p = t}" for t
  proof -
    have "counter_get (dist p) t
            = card {tup \<in> set ?prod. sum_list tup + mod_p p = t}"
      unfolding d counter_get_Counter
      by (rule count_list_map_card) (rule distinct_itertools_product)
    then show ?thesis by (simp add: set_itertools_product)
  qed
  have mass: "sum_list (map snd (dist p))
                = prod_list (map (\<lambda>r. nat (stop r - start r)) (rngs p))"
    by (simp add: d mass_Counter length_itertools_product comp_def length_range_list)
  have empty: "dist p = [(mod_p p, 1)]" if "rngs p = []"
    using that d by (simp add: Counter_def)
  have dice: "int (sum_list (map snd (dist p))) = prod_list ns"
    if "args = map DiceV ds"
      and "list_all2 (\<lambda>n d. Dice_init (IntV n) NoneV = Inr d) ns ds" for ns ds
    using dice_pool_mass [of ds p ns] assms that by (simp only: mass)
  have keys: "distinct (map fst (dist p))"
    by (simp add: d distinct_Counter)
  have pos: "\<forall>kv \<in> set (dist p). 0 < snd kv"
    unfolding d by (rule positive_Counter)
  show ?thesis
    using count keys pos mass dice empty by blast
qed

theorem DicePool_dist_counts_tuples_witness:
  "DicePool_init [DiceV \<lparr>rng = \<lparr>start = 1, stop = 7\<rparr>, avg = 7 / 2, min_d = 1, max_d = 6, sides = 6\<rparr>,
                  DiceV \<lparr>rng = \<lparr>start = 1, stop = 7\<rparr>, avg = 7 / 2, min_d = 1, max_d = 6, sides = 6\<rparr>]
     = Inr \<lparr>rngs = [\<lparr>start = 1, stop = 7\<rparr>, \<lparr>start = 1, stop = 7\<rparr>], mod_p = 0,
           dist = [(2, 1), (3, 2), (4, 3), (5, 4), (6, 5), (7, 6), (8, 5), (9, 4),
                   (10, 3), (11, 2), (12, 1)],
           min_p = 2, max_p = 12, range_p = \<lparr>start = 2, stop = 12\<rparr>\<rparr>
   \<and> card {tup. list_all2 (\<lambda>x r. start r \<le> x \<and> x < stop r) tup [\<lparr>start = 1, stop = 7\<rparr>, \<lparr>start = 1, stop = 7\<rparr>]
                \<and> sum_list tup + 0 = 7} = 6
   \<and> list_all2 (\<lambda>n d. Dice_init (IntV n) NoneV = Inr d) [6, 6]
         [\<lparr>rng = \<lparr>start = 1, stop = 7\<rparr>, avg = 7 / 2, min_d = 1, max_d = 6, sides = 6\<rparr>,
          \<lparr>rng = \<lparr>start = 1, stop = 7\<rparr>, avg = 7 / 2, min_d = 1, max_d = 6, sides = 6\<rparr>]
   \<and> int (sum_list (map snd [(2, 1), (3, 2), (4, 3), (5, 4), (6, 5), (7, 6 :: nat), (8, 5),
                                 (9, 4), (10, 3), (11, 2), (12 :: int, 1)])) = prod_list [6, 6]
   \<and> DicePool_init [IntV 3]
     = Inr \<lparr>rngs = [], mod_p = 3, dist = [(3, 1)], min_p = 3, max_p = 3,
           range_p = \<lparr>start = 3, stop = 3\<rparr>\<rparr>"
proof -
  let ?d6 = "\<lparr>rng = \<lparr>start = 1, stop = 7\<rparr>, avg = 7 / 2, min_d = 1, max_d = 6, sides = 6\<rparr>"
  let ?p = "\<lparr>rngs = [\<lparr>start = 1, stop = 7\<rparr>, \<lparr>start = 1, stop = 7\<rparr>], mod_p = 0,
           dist = [(2, 1), (3, 2), (4, 3), (5, 4), (6, 5), (7, 6), (8, 5), (9, 4),
                   (10, 3), (11, 2), (12, 1)],
           min_p = 2, max_p = 12, range_p = \<lparr>start = 2, stop = 12\<rparr>\<rparr>"
  let ?p3 = "\<lparr>rngs = [], mod_p = 3, dist = [(3, 1)], min_p = 3, max_p = 3,
           range_p = \<lparr>start = 3, stop = 3\<rparr>\<rparr>"
  have pool: "DicePool_init [DiceV ?d6, DiceV ?d6] = Inr ?p"
    by (rule eval_pool_d6_d6)
  have dice: "list_all2 (\<lambda>n d. Dice_init (IntV n) NoneV = Inr d) [6, 6] [?d6, ?d6]"
    by (simp add: Dice_fields_def py_truediv_def range_list_def upto_rec1)
  note spec = DicePool_dist_counts_tuples [OF pool]
  from spec have "counter_get (dist ?p) 7
      = card {tup. list_all2 (\<lambda>x r. start r \<le> x \<and> x < stop r) tup (rngs ?p)
                  \<and> sum_list tup + mod_p ?p = 7}"
    by blast
  then have c7: "card {tup. list_all2 (\<lambda>x r. start r \<le> x \<and> x < stop r) tup [\<lparr>start = 1, stop = 7\<rparr>, \<lparr>start = 1, stop = 7\<rparr>]
                \<and> sum_list tup + 0 = 7} = 6"
    by (simp add: counter_get_def)
  have args: "[DiceV ?d6, DiceV ?d6] = map DiceV [?d6, ?d6]" by simp
  from spec have "\<forall>ns ds. [DiceV ?d6, DiceV ?d6] = map DiceV ds
                  \<and> list_all2 (\<lambda>n d. Dice_init (IntV n) NoneV = Inr d) ns ds
              \<longrightarrow> int (sum_list (map snd (dist ?p))) = prod_list ns"
    by (elim conjE)
  then have "[DiceV ?d6, DiceV ?d6] = map DiceV [?d6, ?d6]
                  \<and> list_all2 (\<lambda>n d. Dice_init (IntV n) NoneV = Inr d) [6, 6] [?d6, ?d6]
              \<longrightarrow> int (sum_list (map snd (dist ?p))) = prod_list [6, 6]"
    by (elim allE)
  with args dice have "int (sum_list (map snd (dist ?p))) = prod_list [6, 6]"
    by (elim impE) (intro conjI)
  then have mass: "int (sum_list (map snd [(2, 1), (3, 2), (4, 3), (5, 4), (6, 5), (7, 6 :: nat),
                      (8, 5), (9, 4), (10, 3), (11, 2), (12 :: int, 1)])) = prod_list [6, 6]"
    by simp
  have e: "DicePool_init [IntV 3] = Inr ?p3" by (rule eval_pool_3)
  from DicePool_dist_counts_tuples [OF e]
  have "rngs ?p3 = [] \<longrightarrow> dist ?p3 = [(mod_p ?p3, 1)]" by (elim conjE)
  then have single: "dist ?p3 = [(3, 1)]" by simp
  show ?thesis using pool c7 dice mass e single by (intro conjI)
qed

subsection \<open>Dice pools: subtracting a die\<close>

text \<open>
  Claim C7. Let \<open>Q\<close> be a pool and \<open>d\<close> a die whose canonical range equals no range of
  \<open>Q\<close>. Then \<open>Q + d\<close> is a pool whenever \<open>d\<close> has a face, and for every pool \<open>P = Q + d\<close> the
  difference \<open>P - d\<close> is \<open>Q\<close> itself: the same ranges, modifier and distribution.
\<close>

theorem DicePool_sub_inverts_add:
  assumes "DicePool_init args = Inr Q"
    and "\<not> (\<exists>r \<in> set (rngs Q). range_eq r (fst (normalize (rng d))))"
  shows "(start (rng d) < stop (rng d) \<longrightarrow> (\<exists>P. DicePool_add Q (DiceV d) = Inr P))
       \<and> (\<forall>P. DicePool_add Q (DiceV d) = Inr P \<longrightarrow> DicePool_sub P (DiceV d) = Inr Q)"
proof (intro conjI allI impI)
  let ?c = "fst (normalize (rng d))" and ?m = "snd (normalize (rng d))"
  have add: "DicePool_add Q (DiceV d) = DicePool_fields (rngs Q @ [?c]) (?m + mod_p Q)"
    using assms(1) by (rule DicePool_add_Dice)
  {
    assume "start (rng d) < stop (rng d)"
    then have "start ?c < stop ?c" by (simp add: normalize_def Let_def)
    then have "\<forall>r \<in> set (rngs Q @ [?c]). start r < stop r"
      using DicePool_init_nonempty [OF assms(1)] by simp
    then show "\<exists>P. DicePool_add Q (DiceV d) = Inr P"
      unfolding add by (simp only: DicePool_fields_returns_iff)
  }
  fix P
  assume P: "DicePool_add Q (DiceV d) = Inr P"
  then have f: "DicePool_fields (rngs Q @ [?c]) (?m + mod_p Q) = Inr P"
    by (simp only: add)
  have rs: "rngs P = rngs Q @ [?c]" and m: "mod_p P = ?m + mod_p Q"
    using f by (rule DicePool_fields_Inr)+
  have "\<not> range_in ?c (rngs Q)"
    using assms(2) by (simp add: range_in_iff)
  then have rem: "range_remove ?c (rngs P) = rngs Q"
    unfolding rs by (rule range_remove_last) (rule range_eq_refl)
  have "range_in ?c (rngs P)"
    by (auto simp: rs range_in_iff range_eq_refl)
  moreover have "DicePool_init (map RangeV (rngs Q) @ [RangeV (rng d), IntV (mod_p Q)]) = Inr P"
    using P by simp
  ultimately have "DicePool_sub P (DiceV d) = DicePool_fields (rngs Q) (mod_p Q)"
    by (simp only: DicePool_sub_Dice rem m if_True add_diff_cancel_left')
  also have "\<dots> = Inr Q"
    using assms(1) by (rule DicePool_init_fields)
  finally show "DicePool_sub P (DiceV d) = Inr Q" .
qed

theorem DicePool_sub_inverts_add_witness:
  "DicePool_init [IntV 4]
     = Inr \<lparr>rngs = [], mod_p = 4, dist = [(4, 1)], min_p = 4, max_p = 4,
           range_p = \<lparr>start = 4, stop = 4\<rparr>\<rparr>
   \<and> DicePool_add \<lparr>rngs = [], mod_p = 4, dist = [(4, 1)], min_p = 4, max_p = 4,
           range_p = \<lparr>start = 4, stop = 4\<rparr>\<rparr>
       (DiceV \<lparr>rng = \<lparr>start = 1, stop = 7\<rparr>, avg = 7 / 2, min_d = 1, max_d = 6, sides = 6\<rparr>)
     = Inr \<lparr>rngs = [\<lparr>start = 1, stop = 7\<rparr>], mod_p = 4,
           dist = [(5, 1), (6, 1), (7, 1), (8, 1), (9, 1), (10, 1)],
           min_p = 5, max_p = 10, range_p = \<lparr>start = 5, stop = 10\<rparr>\<rparr>
   \<and> DicePool_sub \<lparr>rngs = [\<lparr>start = 1, stop = 7\<rparr>], mod_p = 4,
           dist = [(5, 1), (6, 1), (7, 1), (8, 1), (9, 1), (10, 1)],
           min_p = 5, max_p = 10, range_p = \<lparr>start = 5, stop = 10\<rparr>\<rparr>
       (DiceV \<lparr>rng = \<lparr>start = 1, stop = 7\<rparr>, avg = 7 / 2, min_d = 1, max_d = 6, sides = 6\<rparr>)
     = Inr \<lparr>rngs = [], mod_p = 4, dist = [(4, 1)], min_p = 4, max_p = 4,
           range_p = \<lparr>start = 4, stop = 4\<rparr>\<rparr>"
proof -
  let ?d6 = "\<lparr>rng = \<lparr>start = 1, stop = 7\<rparr>, avg = 7 / 2, min_d = 1, max_d = 6, sides = 6\<rparr>"
  let ?q = "\<lparr>rngs = [], mod_p = 4, dist = [(4, 1)], min_p = 4, max_p = 4,
           range_p = \<lparr>start = 4, stop = 4\<rparr>\<rparr>"
  let ?p = "\<lparr>rngs = [\<lparr>start = 1, stop = 7\<rparr>], mod_p = 4,
           dist = [(5, 1), (6, 1), (7, 1), (8, 1), (9, 1), (10, 1)],
           min_p = 5, max_p = 10, range_p = \<lparr>start = 5, stop = 10\<rparr>\<rparr>"
  have q: "DicePool_init [IntV 4] = Inr ?q" by (rule eval_pool_4)
  have absent: "\<not> (\<exists>r \<in> set (rngs ?q). range_eq r (fst (normalize (rng ?d6))))"
    by simp
  have add: "DicePool_add ?q (DiceV ?d6) = Inr ?p"
    by (simp add: DicePool_init_def DicePool_fields_def normalize_def Counter_def range_list_def upto_rec1 Dice_fields_def py_truediv_def range_eq_def)
  from DicePool_sub_inverts_add [OF q absent] add
  have "DicePool_sub ?p (DiceV ?d6) = Inr ?q" by blast
  with q add show ?thesis by blast
qed

text \<open>
  Claim C8. Subtracting a die from a pool raises \<^verbatim>\<open>ValueError\<close> exactly when no range of
  the pool equals the die's canonical range. When one does, the subtraction returns a
  pool with one range fewer, whose modifier is the pool's less the die's own: it is never
  the pool unchanged. Subtracting \<^verbatim>\<open>Dice(8)\<close> from \<^verbatim>\<open>DicePool(Dice(6), Dice(6))\<close> raises.
\<close>

theorem DicePool_sub_Dice_ValueError:
  assumes "DicePool_init args = Inr P"
  shows "(DicePool_sub P (DiceV d) = Inl ValueError
            \<longleftrightarrow> \<not> (\<exists>r \<in> set (rngs P). range_eq r (fst (normalize (rng d)))))
       \<and> ((\<exists>r \<in> set (rngs P). range_eq r (fst (normalize (rng d)))) \<longrightarrow>
            (\<exists>R. DicePool_sub P (DiceV d) = Inr R
                 \<and> length (rngs R) + 1 = length (rngs P)
                 \<and> mod_p R = mod_p P - snd (normalize (rng d))
                 \<and> R \<noteq> P))"
proof -
  let ?c = "fst (normalize (rng d))" and ?m = "snd (normalize (rng d))"
  have sub: "DicePool_sub P (DiceV d)
           = (if range_in ?c (rngs P)
              then DicePool_fields (range_remove ?c (rngs P)) (mod_p P - ?m)
              else Inl ValueError)"
    using assms by (rule DicePool_sub_Dice)
  have present: "\<exists>R. DicePool_sub P (DiceV d) = Inr R
                 \<and> length (rngs R) + 1 = length (rngs P)
                 \<and> mod_p R = mod_p P - ?m \<and> R \<noteq> P"
    if "range_in ?c (rngs P)"
  proof -
    have "\<forall>r \<in> set (range_remove ?c (rngs P)). start r < stop r"
      using DicePool_init_nonempty [OF assms] range_remove_subset by blast
    then obtain R where R: "DicePool_fields (range_remove ?c (rngs P)) (mod_p P - ?m) = Inr R"
      using DicePool_fields_returns_iff by blast
    have rs: "rngs R = range_remove ?c (rngs P)" and m: "mod_p R = mod_p P - ?m"
      using R by (rule DicePool_fields_Inr)+
    have len: "length (rngs R) + 1 = length (rngs P)"
      unfolding rs using that by (rule length_range_remove)
    then have neq: "R \<noteq> P" by auto
    show ?thesis unfolding sub using that R len m neq by simp
  qed
  have absent: "DicePool_sub P (DiceV d) = Inl ValueError" if "\<not> range_in ?c (rngs P)"
    unfolding sub using that by simp
  show ?thesis
    using present absent unfolding range_in_iff by (metis Inl_Inr_False)
qed

theorem DicePool_sub_Dice_ValueError_witness:
  "DicePool_init [DiceV \<lparr>rng = \<lparr>start = 1, stop = 7\<rparr>, avg = 7 / 2, min_d = 1, max_d = 6, sides = 6\<rparr>,
                  DiceV \<lparr>rng = \<lparr>start = 1, stop = 7\<rparr>, avg = 7 / 2, min_d = 1, max_d = 6, sides = 6\<rparr>]
     = Inr \<lparr>rngs = [\<lparr>start = 1, stop = 7\<rparr>, \<lparr>start = 1, stop = 7\<rparr>], mod_p = 0,
           dist = [(2, 1), (3, 2), (4, 3), (5, 4), (6, 5), (7, 6), (8, 5), (9, 4),
                   (10, 3), (11, 2), (12, 1)],
           min_p = 2, max_p = 12, range_p = \<lparr>start = 2, stop = 12\<rparr>\<rparr>
   \<and> DicePool_sub \<lparr>rngs = [\<lparr>start = 1, stop = 7\<rparr>, \<lparr>start = 1, stop = 7\<rparr>], mod_p = 0,
           dist = [(2, 1), (3, 2), (4, 3), (5, 4), (6, 5), (7, 6), (8, 5), (9, 4),
                   (10, 3), (11, 2), (12, 1)],
           min_p = 2, max_p = 12, range_p = \<lparr>start = 2, stop = 12\<rparr>\<rparr>
       (DiceV \<lparr>rng = \<lparr>start = 1, stop = 9\<rparr>, avg = 9 / 2, min_d = 1, max_d = 8, sides = 8\<rparr>)
     = Inl ValueError
   \<and> (\<exists>R. DicePool_sub \<lparr>rngs = [\<lparr>start = 1, stop = 7\<rparr>, \<lparr>start = 1, stop = 7\<rparr>], mod_p = 0,
           dist = [(2, 1), (3, 2), (4, 3), (5, 4), (6, 5), (7, 6), (8, 5), (9, 4),
                   (10, 3), (11, 2), (12, 1)],
           min_p = 2, max_p = 12, range_p = \<lparr>start = 2, stop = 12\<rparr>\<rparr>
            (DiceV \<lparr>rng = \<lparr>start = 1, stop = 7\<rparr>, avg = 7 / 2, min_d = 1, max_d = 6, sides = 6\<rparr>) = Inr R \<and> rngs R = [\<lparr>start = 1, stop = 7\<rparr>] \<and> mod_p R = 0)"
proof -
  let ?d6 = "\<lparr>rng = \<lparr>start = 1, stop = 7\<rparr>, avg = 7 / 2, min_d = 1, max_d = 6, sides = 6\<rparr>"
  let ?d8 = "\<lparr>rng = \<lparr>start = 1, stop = 9\<rparr>, avg = 9 / 2, min_d = 1, max_d = 8, sides = 8\<rparr>"
  let ?p = "\<lparr>rngs = [\<lparr>start = 1, stop = 7\<rparr>, \<lparr>start = 1, stop = 7\<rparr>], mod_p = 0,
           dist = [(2, 1), (3, 2), (4, 3), (5, 4), (6, 5), (7, 6), (8, 5), (9, 4),
                   (10, 3), (11, 2), (12, 1)],
           min_p = 2, max_p = 12, range_p = \<lparr>start = 2, stop = 12\<rparr>\<rparr>"
  let ?p6 = "\<lparr>rngs = [\<lparr>start = 1, stop = 7\<rparr>], mod_p = 0,
           dist = [(1, 1), (2, 1), (3, 1), (4, 1), (5, 1), (6, 1)],
           min_p = 1, max_p = 6, range_p = \<lparr>start = 1, stop = 6\<rparr>\<rparr>"
  have pool: "DicePool_init [DiceV ?d6, DiceV ?d6] = Inr ?p"
    by (rule eval_pool_d6_d6)
  have "\<not> (\<exists>r \<in> set (rngs ?p). range_eq r (fst (normalize (rng ?d8))))"
    by (simp add: normalize_def range_eq_def range_list_def upto_rec1)
  with DicePool_sub_Dice_ValueError [OF pool, of ?d8]
  have err: "DicePool_sub ?p (DiceV ?d8) = Inl ValueError" by blast
  have "\<exists>r \<in> set (rngs ?p). range_eq r (fst (normalize (rng ?d6)))"
    by (simp add: normalize_def range_eq_def)
  with DicePool_sub_Dice_ValueError [OF pool, of ?d6]
  obtain R where R: "DicePool_sub ?p (DiceV ?d6) = Inr R"
    and len: "length (rngs R) + 1 = length (rngs ?p)" and m: "mod_p R = mod_p ?p - snd (normalize (rng ?d6))"
    by blast
  have "DicePool_sub ?p (DiceV ?d6) = DicePool_init [RangeV \<lparr>start = 1, stop = 7\<rparr>, IntV 0]"
    by (simp add: normalize_def range_eq_def)
  also have "\<dots> = Inr ?p6"
    by (simp add: DicePool_init_def DicePool_fields_def normalize_def Counter_def
        range_list_def upto_rec1)
  finally have eq: "DicePool_sub ?p (DiceV ?d6) = Inr ?p6" .
  from R eq have "R = ?p6" by (simp only: sum.inject)
  then have "rngs R = [\<lparr>start = 1, stop = 7\<rparr>]" by simp
  moreover have "mod_p R = 0" using m by (simp add: normalize_def)
  ultimately show ?thesis using pool err R by blast
qed

end
